theory Spec2Isabelle
  imports Main "HOL-Library.Sublist"
begin

section \<open>Python values\<close>

text \<open>
  A Python \<open>str\<close> is a sequence of Unicode code points, so it is a list of naturals here:
  the weather text of the notebook ends in U+1F608, which no 8-bit character holds.
  \<open>py\<close> turns an ASCII literal into such a string.
\<close>

type_synonym pystr = "nat list"

definition py :: "string \<Rightarrow> pystr" where
  "py s = map of_char s"

text \<open>
  The values a capability takes and returns. \<open>PyObject\<close> stands for any value that
  \<open>json.dumps\<close> has no encoding for (a set, an instance of a class); a \<open>dict\<close> keeps its
  insertion order, so it is an association list.
\<close>

datatype pyvalue =
    PyNone
  | PyBool bool
  | PyInt int
  | PyStr pystr
  | PyList "pyvalue list"
  | PyDict "(pystr \<times> pyvalue) list"
  | PyObject

text \<open>
  Exceptions are values. \<open>ModelClientFailure\<close> is whatever the model client raises
  (network, timeout, authentication); \<open>GraphError\<close> is raised by the graph executor
  when a position has no node or no edge.
\<close>

datatype error =
    IndexError
  | AttributeError
  | KeyError pystr
  | TypeError
  | ValidationError
  | AssertionError pystr
  | ModelClientFailure
  | GraphError

text \<open>\<open>xs[-1]\<close>: the last element, IndexError on the empty list.\<close>

definition py_last :: "'a list \<Rightarrow> error + 'a" where
  "py_last xs = (if xs = [] then Inl IndexError else Inr (last xs))"

text \<open>
  \<open>str.lower()\<close> on the ASCII letters. Code points beyond ASCII are kept; of the letters
  that Python lowers into ASCII, U+212A gives \<open>k\<close> and U+0130 gives \<open>i\<close> followed by
  U+0307, and neither completes one of the city names tested below.
\<close>

definition lower_char :: "nat \<Rightarrow> nat" where
  "lower_char c = (if 65 \<le> c \<and> c \<le> 90 then c + 32 else c)"

definition lower :: "pystr \<Rightarrow> pystr" where
  "lower s = map lower_char s"

text \<open>\<open>sub in s\<close> on strings: \<open>sub\<close> occurs in \<open>s\<close> as a contiguous run.\<close>

fun py_in :: "pystr \<Rightarrow> pystr \<Rightarrow> bool" where
  "py_in sub [] = (sub = [])"
| "py_in sub (c # s) = (prefix sub (c # s) \<or> py_in sub s)"

text \<open>\<open>any(bs)\<close> on a list of booleans.\<close>

definition py_any :: "bool list \<Rightarrow> bool" where
  "py_any bs = list_ex (\<lambda>b. b) bs"

section \<open>\<open>json.dumps\<close>\<close>

text \<open>
  The standard encoder with its default options (\<open>ensure_ascii=True\<close>, separators
  \<open>", "\<close> and \<open>": "\<close>). A string is wrapped in double quotes; inside, the backslash,
  the double quote and every code point outside \<open>' '..'~'\<close> are escaped, a code point
  from U+10000 on as a surrogate pair. \<open>0xd800 | ((n >> 10) & 0x3ff)\<close> and
  \<open>0xdc00 | (n & 0x3ff)\<close> are sums, the low ten bits of both constants being zero.
\<close>

definition hex_digit :: "nat \<Rightarrow> nat" where
  "hex_digit d = (if d < 10 then 48 + d else 87 + d)"

definition hex4 :: "nat \<Rightarrow> pystr" where
  "hex4 n = [hex_digit (n div 4096 mod 16), hex_digit (n div 256 mod 16),
             hex_digit (n div 16 mod 16), hex_digit (n mod 16)]"

definition escape_char :: "nat \<Rightarrow> pystr" where
  "escape_char c =
     (if c = 92 then [92, 92]
      else if c = 34 then [92, 34]
      else if c = 8 then [92, 98]
      else if c = 12 then [92, 102]
      else if c = 10 then [92, 110]
      else if c = 13 then [92, 114]
      else if c = 9 then [92, 116]
      else if 32 \<le> c \<and> c \<le> 126 then [c]
      else if c < 65536 then [92, 117] @ hex4 c
      else [92, 117] @ hex4 (55296 + (c - 65536) div 1024 mod 1024)
         @ [92, 117] @ hex4 (56320 + (c - 65536) mod 1024))"

definition encode_basestring_ascii :: "pystr \<Rightarrow> pystr" where
  "encode_basestring_ascii s = [34] @ concat (map escape_char s) @ [34]"

fun decimal :: "nat \<Rightarrow> pystr" where
  "decimal n = (if n < 10 then [48 + n] else decimal (n div 10) @ [48 + n mod 10])"

declare decimal.simps [simp del]

fun join :: "pystr \<Rightarrow> pystr list \<Rightarrow> pystr" where
  "join sep [] = []"
| "join sep [x] = x"
| "join sep (x # y # ys) = x @ sep @ join sep (y # ys)"

fun serializable :: "pyvalue \<Rightarrow> bool" where
  "serializable PyObject = False"
| "serializable (PyList vs) = list_all serializable vs"
| "serializable (PyDict kvs) = list_all (\<lambda>kv. serializable (snd kv)) kvs"
| "serializable v = True"

fun encode :: "pyvalue \<Rightarrow> pystr" where
  "encode PyNone = py ''null''"
| "encode (PyBool b) = (if b then py ''true'' else py ''false'')"
| "encode (PyInt i) = (if i < 0 then 45 # decimal (nat (- i)) else decimal (nat i))"
| "encode (PyStr s) = encode_basestring_ascii s"
| "encode (PyList vs) = [91] @ join (py '', '') (map encode vs) @ [93]"
| "encode (PyDict kvs) =
     [123] @ join (py '', '')
       (map (\<lambda>kv. encode_basestring_ascii (fst kv) @ py '': '' @ encode (snd kv)) kvs) @ [125]"
| "encode PyObject = []"

text \<open>\<open>json.dumps(v)\<close>: TypeError when some part of \<open>v\<close> has no encoding.\<close>

definition json_dumps :: "pyvalue \<Rightarrow> error + pystr" where
  "json_dumps v = (if serializable v then Inr (encode v) else Inl TypeError)"

section \<open>Messages and the agent state\<close>

text \<open>
  Modelled from the spec: the Tool Call of the chat library, "call identifier, tool
  name, argument mapping (string keys, arbitrary values)". It is the dictionary
  whose keys \<open>name\<close>, \<open>args\<close> and \<open>id\<close> the nodes read (\<open>id'\<close> here, \<open>id\<close> being the
  identity function of HOL).
\<close>

record tool_call =
  name :: pystr
  args :: "(pystr \<times> pyvalue) list"
  id' :: pystr

text \<open>
  Modelled from the spec: the message classes of the chat library, "a tagged variant
  over human-authored, model-authored, tool-result", with the system message that
  the agent node builds. The model's \<open>AIMessage\<close> carries its content and its Tool
  Calls; the tool node builds \<open>ToolMessage(content, name, tool_call_id)\<close>.
\<close>

datatype message =
    HumanMessage pystr
  | AIMessage pystr "tool_call list"
  | ToolMessage pystr pystr pystr
  | SystemMessage pystr

text \<open>
  Modelled from the spec: the attribute \<open>.tool_calls\<close> of a message. Only "a
  model-authored message optionally carries zero or more Tool Call records": the
  other classes do not declare the attribute, and reading it from one of their
  objects is Python's AttributeError.
\<close>

fun tool_calls :: "message \<Rightarrow> error + tool_call list" where
  "tool_calls (AIMessage c tcs) = Inr tcs"
| "tool_calls m = Inl AttributeError"

text \<open>\<open>AgentState\<close>: the dictionary with the one key \<open>messages\<close>.\<close>

record agent_state =
  messages :: "message list"

section \<open>Model and tools\<close>

text \<open>The weather capability of the ReAct notebook.\<close>

definition get_weather :: "pystr \<Rightarrow> pystr" where
  "get_weather location =
     (if py_any (map (\<lambda>city. py_in city (lower location)) [py ''sf'', py ''san francisco''])
      then py ''It's sunny in San Francisco, but you better look out if you're a Gemini ''
             @ [128520] @ py ''.''
      else py ''I am not sure what the weather is in '' @ location)"

text \<open>
  The persistence notebook defines another capability under the same name; it is
  handed to the prebuilt agent of that notebook, never to the tool node below.
\<close>

definition get_weather_persistence :: "pystr \<Rightarrow> error + pystr" where
  "get_weather_persistence city =
     (if city = py ''nyc'' then Inr (py ''It might be cloudy in nyc'')
      else if city = py ''sf'' then Inr (py ''It's always sunny in sf'')
      else Inl (AssertionError (py ''Unknown city'')))"

text \<open>
  Modelled from the spec: what the \<open>@tool\<close> decorator of the chat library makes of a
  function, a capability "registered under a unique name" with
  "invoke(argument mapping) -> arbitrary serializable value", which may raise.
\<close>

record tool =
  tool_name :: pystr
  invoke :: "(pystr \<times> pyvalue) list \<Rightarrow> error + pyvalue"

text \<open>
  For \<open>get_weather(location: str)\<close> the decorator derives the schema "a string under
  the key \<open>location\<close>": \<open>invoke\<close> rejects a dictionary that does not fit with a
  validation error, and otherwise calls the function and returns its value.
\<close>

definition get_weather_tool :: tool where
  "get_weather_tool =
     \<lparr>tool_name = py ''get_weather'',
      invoke = (\<lambda>input.
        case map_of input (py ''location'') of
          Some (PyStr location) \<Rightarrow> Inr (PyStr (get_weather location))
        | _ \<Rightarrow> Inl ValidationError)\<rparr>"

definition tools :: "tool list" where
  "tools = [get_weather_tool]"

text \<open>
  \<open>{tool.name: tool for tool in tools}\<close>: a later tool of the same name replaces an
  earlier one.
\<close>

definition tools_by_name :: "pystr \<rightharpoonup> tool" where
  "tools_by_name = map_of (rev (map (\<lambda>tool. (tool_name tool, tool)) tools))"

section \<open>Nodes and edges\<close>

text \<open>
  The tool node. The module-level dictionary \<open>tools_by_name\<close> that the source reads
  is the first argument. The loop runs over the Tool Calls of the last message with
  the list \<open>outputs\<close> as accumulator; an exception leaves the loop and the function,
  and \<open>outputs\<close> with it.
\<close>

fun tool_node_loop ::
  "(pystr \<rightharpoonup> tool) \<Rightarrow> tool_call list \<Rightarrow> message list \<Rightarrow> error + message list" where
  "tool_node_loop registry [] outputs = Inr outputs"
| "tool_node_loop registry (tool_call # rest) outputs =
     (case registry (name tool_call) of
        None \<Rightarrow> Inl (KeyError (name tool_call))
      | Some t \<Rightarrow>
          (case invoke t (args tool_call) of
             Inl e \<Rightarrow> Inl e
           | Inr tool_result \<Rightarrow>
               (case json_dumps tool_result of
                  Inl e \<Rightarrow> Inl e
                | Inr text \<Rightarrow>
                    tool_node_loop registry rest
                      (outputs @ [ToolMessage text (name tool_call) (id' tool_call)]))))"

definition tool_node :: "(pystr \<rightharpoonup> tool) \<Rightarrow> agent_state \<Rightarrow> error + agent_state" where
  "tool_node registry state =
     (case py_last (messages state) of
        Inl e \<Rightarrow> Inl e
      | Inr last_message \<Rightarrow>
          (case tool_calls last_message of
             Inl e \<Rightarrow> Inl e
           | Inr calls \<Rightarrow>
               (case tool_node_loop registry calls [] of
                  Inl e \<Rightarrow> Inl e
                | Inr outputs \<Rightarrow> Inr \<lparr>messages = outputs\<rparr>)))"

text \<open>
  The node that calls the model. The model client (the chat model with the tools
  bound) is the first argument: a function from the message sequence and the run
  configuration to a response message or an exception.
\<close>

definition system_prompt :: message where
  "system_prompt = SystemMessage (py
     ''You are a helpful AI assistant, please respond to the users query to the best of your ability!'')"

definition call_model ::
  "(message list \<Rightarrow> 'c \<Rightarrow> error + message) \<Rightarrow> agent_state \<Rightarrow> 'c \<Rightarrow> error + agent_state" where
  "call_model model state config =
     (case model ([system_prompt] @ messages state) config of
        Inl e \<Rightarrow> Inl e
      | Inr response \<Rightarrow> Inr \<lparr>messages = [response]\<rparr>)"

text \<open>The conditional edge that determines whether to continue or not.\<close>

definition should_continue :: "agent_state \<Rightarrow> error + pystr" where
  "should_continue state =
     (case py_last (messages state) of
        Inl e \<Rightarrow> Inl e
      | Inr last_message \<Rightarrow>
          (case tool_calls last_message of
             Inl e \<Rightarrow> Inl e
           | Inr calls \<Rightarrow> if calls = [] then Inr (py ''end'') else Inr (py ''continue'')))"

section \<open>The graph\<close>

text \<open>
  Modelled from the spec: the names of the two positions of a run that are not
  nodes, the start and the terminal state of the loop state machine (the graph
  library is not among the sources).
\<close>

definition START :: pystr where
  "START = py ''__start__''"

definition END :: pystr where
  "END = py ''__end__''"

text \<open>
  Modelled from the spec: the graph that the builder \<open>StateGraph\<close> holds, which is
  what the executor consumes: the named nodes, the unconditional edges, and for a
  conditional edge its source node, its path function and its routing table.
\<close>

record 'c state_graph =
  nodes :: "(pystr \<times> (agent_state \<Rightarrow> 'c \<Rightarrow> error + agent_state)) list"
  edges :: "(pystr \<times> pystr) list"
  branches :: "(pystr \<times> (agent_state \<Rightarrow> error + pystr) \<times> (pystr \<times> pystr) list) list"

text \<open>Modelled from the spec: \<open>StateGraph(AgentState)\<close>, the graph with nothing in it.\<close>

definition StateGraph :: "'c state_graph" where
  "StateGraph = \<lparr>nodes = [], edges = [], branches = []\<rparr>"

text \<open>Modelled from the spec: \<open>add_node\<close> records a step under its name.\<close>

definition add_node ::
  "pystr \<Rightarrow> (agent_state \<Rightarrow> 'c \<Rightarrow> error + agent_state) \<Rightarrow> 'c state_graph \<Rightarrow> 'c state_graph" where
  "add_node node action g = g\<lparr>nodes := nodes g @ [(node, action)]\<rparr>"

text \<open>Modelled from the spec: \<open>add_edge\<close> records an unconditional transition.\<close>

definition add_edge :: "pystr \<Rightarrow> pystr \<Rightarrow> 'c state_graph \<Rightarrow> 'c state_graph" where
  "add_edge start_key end_key g = g\<lparr>edges := edges g @ [(start_key, end_key)]\<rparr>"

text \<open>
  Modelled from the spec: \<open>set_entry_point\<close> names the node that the start leads to,
  always.
\<close>

definition set_entry_point :: "pystr \<Rightarrow> 'c state_graph \<Rightarrow> 'c state_graph" where
  "set_entry_point key g = add_edge START key g"

text \<open>
  Modelled from the spec: \<open>add_conditional_edges\<close> records for a source node the
  function that gives the routing label and the table from labels to targets.
\<close>

definition add_conditional_edges ::
  "pystr \<Rightarrow> (agent_state \<Rightarrow> error + pystr) \<Rightarrow> (pystr \<times> pystr) list
     \<Rightarrow> 'c state_graph \<Rightarrow> 'c state_graph" where
  "add_conditional_edges source path path_map g =
     g\<lparr>branches := branches g @ [(source, path, path_map)]\<rparr>"

text \<open>
  The graph of the notebook, built by its calls in their order. The tool node takes
  the state only; the agent node takes the state and the run configuration.
\<close>

definition workflow ::
  "(message list \<Rightarrow> 'c \<Rightarrow> error + message) \<Rightarrow> (pystr \<rightharpoonup> tool) \<Rightarrow> 'c state_graph" where
  "workflow model registry =
     (let g0 = StateGraph;
          g1 = add_node (py ''agent'') (call_model model) g0;
          g2 = add_node (py ''tools'') (\<lambda>state config. tool_node registry state) g1;
          g3 = set_entry_point (py ''agent'') g2;
          g4 = add_conditional_edges (py ''agent'') should_continue
                 [(py ''continue'', py ''tools''), (py ''end'', END)] g3;
          g5 = add_edge (py ''tools'') (py ''agent'') g4
      in g5)"

text \<open>
  Modelled from the spec: the reducer \<open>add_messages\<close> of the state key \<open>messages\<close>,
  "reducer semantics: concatenation, not replacement".
\<close>

definition add_messages :: "agent_state \<Rightarrow> agent_state \<Rightarrow> agent_state" where
  "add_messages state delta = \<lparr>messages = messages state @ messages delta\<rparr>"

text \<open>
  Modelled from the spec: the routing of the graph executor. Leaving a position, a
  conditional edge calls its path function on the state and looks the label up in
  its routing table; otherwise the unconditional edge is followed. A position
  without either has no successor.
\<close>

definition next_node :: "'c state_graph \<Rightarrow> pystr \<Rightarrow> agent_state \<Rightarrow> error + pystr" where
  "next_node g position state =
     (case map_of (branches g) position of
        Some (path, path_map) \<Rightarrow>
          (case path state of
             Inl e \<Rightarrow> Inl e
           | Inr label \<Rightarrow>
               (case map_of path_map label of
                  None \<Rightarrow> Inl (KeyError label)
                | Some target \<Rightarrow> Inr target))
      | None \<Rightarrow>
          (case map_of (edges g) position of
             None \<Rightarrow> Inl GraphError
           | Some target \<Rightarrow> Inr target))"

text \<open>
  Modelled from the spec: one step of the graph executor. A position is \<open>START\<close>, a
  node about to run, or \<open>END\<close>. The step from \<open>START\<close> routes on the initial state; a
  step from a node runs the node, appends its delta to the state with the reducer
  and routes on the new state. An exception of the node or of the path function
  aborts the step, and no state comes out of it.
\<close>

definition run_step ::
  "'c state_graph \<Rightarrow> 'c \<Rightarrow> pystr \<times> agent_state \<Rightarrow> error + pystr \<times> agent_state" where
  "run_step g config ps =
     (case ps of (position, state) \<Rightarrow>
        if position = START then
          (case next_node g START state of
             Inl e \<Rightarrow> Inl e
           | Inr target \<Rightarrow> Inr (target, state))
        else
          (case map_of (nodes g) position of
             None \<Rightarrow> Inl GraphError
           | Some action \<Rightarrow>
               (case action state config of
                  Inl e \<Rightarrow> Inl e
                | Inr delta \<Rightarrow>
                    (case next_node g position (add_messages state delta) of
                       Inl e \<Rightarrow> Inl e
                     | Inr target \<Rightarrow> Inr (target, add_messages state delta)))))"

text \<open>
  Modelled from the spec: the positions and states that a run of the executor from
  an initial state passes through, step after step.
\<close>

inductive reachable ::
  "'c state_graph \<Rightarrow> 'c \<Rightarrow> agent_state \<Rightarrow> pystr \<times> agent_state \<Rightarrow> bool"
  for g :: "'c state_graph" and config :: 'c and initial :: agent_state where
  reachable_start: "reachable g config initial (START, initial)"
| reachable_step:
    "reachable g config initial ps \<Longrightarrow> run_step g config ps = Inr ps'
       \<Longrightarrow> reachable g config initial ps'"

section \<open>Notions of the specification\<close>

text \<open>The final message of a Conversation State, if it has one.\<close>

definition final_message :: "agent_state \<Rightarrow> message option" where
  "final_message state =
     (if messages state = [] then None else Some (last (messages state)))"

text \<open>A message is model-authored; the Tool Calls a message carries.\<close>

fun model_authored :: "message \<Rightarrow> bool" where
  "model_authored (AIMessage c tcs) = True"
| "model_authored m = False"

fun carried_calls :: "message \<Rightarrow> tool_call list" where
  "carried_calls (AIMessage c tcs) = tcs"
| "carried_calls m = []"

text \<open>
  A location contains a registered city: one of the two city names occurs in it,
  whatever the case of its letters.
\<close>

definition contains_registered_city :: "pystr \<Rightarrow> bool" where
  "contains_registered_city location =
     (sublist (py ''sf'') (lower location) \<or> sublist (py ''san francisco'') (lower location))"

text \<open>
  Every tool-result message answers a Tool Call of the model-authored message
  before it: reading the sequence from the left, \<open>answers ids ms\<close> keeps in \<open>ids\<close>
  the call identifiers of the latest model-authored message (\<open>None\<close> before the
  first one) and asks of each tool-result message that its reference is among them.
\<close>

fun answers :: "pystr list option \<Rightarrow> message list \<Rightarrow> bool" where
  "answers ids [] = True"
| "answers ids (AIMessage c tcs # ms) = answers (Some (map id' tcs)) ms"
| "answers ids (ToolMessage c n ref # ms) =
     ((case ids of None \<Rightarrow> False | Some known \<Rightarrow> ref \<in> set known) \<and> answers ids ms)"
| "answers ids (m # ms) = answers ids ms"

text \<open>
  The tool-result message that one turn of the tool node's loop makes of a Tool
  Call, when the lookup, the invocation and the serialization all return.
\<close>

definition produced :: "(pystr \<rightharpoonup> tool) \<Rightarrow> tool_call \<Rightarrow> message \<Rightarrow> bool" where
  "produced registry tc m \<longleftrightarrow>
     (\<exists>t v s. registry (name tc) = Some t \<and> invoke t (args tc) = Inr v
        \<and> json_dumps v = Inr s \<and> m = ToolMessage s (name tc) (id' tc))"

text \<open>
  What a step of the graph of the notebook preserves: the messages are the initial
  ones followed by new ones; among the new ones every tool-result message answers
  a Tool Call of the model-authored message before it; the new ones begin with a
  model-authored message; and when the tool node is about to run, there are new
  messages.
\<close>

definition run_invariant :: "agent_state \<Rightarrow> pystr \<times> agent_state \<Rightarrow> bool" where
  "run_invariant initial ps \<longleftrightarrow>
     (\<exists>new. messages (snd ps) = messages initial @ new \<and> answers None new
        \<and> (new = [] \<or> (\<exists>c tcs ys. new = AIMessage c tcs # ys))
        \<and> (fst ps = py ''tools'' \<longrightarrow> new \<noteq> []))"

section \<open>The recorded run\<close>

text \<open>
  The run that the notebook prints: the question, the model's request for
  \<open>get_weather\<close>, the tool's answer as the notebook shows it (quoted, the last
  code point as the escaped surrogate pair), and the model's closing message. The
  model client is replaced by a script that replays the two recorded responses.
\<close>

definition scenario_call :: tool_call where
  "scenario_call =
     \<lparr>name = py ''get_weather'',
      args = [(py ''location'', PyStr (py ''San Francisco''))],
      id' = py ''call_azW0cQ4XjWWj0IAkWAxq9nLB''\<rparr>"

definition scenario_tool_text :: pystr where
  "scenario_tool_text =
     [34] @ py ''It's sunny in San Francisco, but you better look out if you're a Gemini ''
       @ [92] @ py ''ud83d'' @ [92] @ py ''ude08.'' @ [34]"

definition scenario_closing :: message where
  "scenario_closing = AIMessage (py
     ''The weather in San Francisco is sunny! However, it seems there's a playful warning for Geminis. Enjoy the sunshine!'') []"

fun scenario_reply :: "message \<Rightarrow> error + message" where
  "scenario_reply (HumanMessage q) = Inr (AIMessage [] [scenario_call])"
| "scenario_reply (ToolMessage c n ref) = Inr scenario_closing"
| "scenario_reply m = Inl ModelClientFailure"

definition scenario_model :: "message list \<Rightarrow> unit \<Rightarrow> error + message" where
  "scenario_model ms config = scenario_reply (last ms)"

definition scenario_input :: agent_state where
  "scenario_input = \<lparr>messages = [HumanMessage (py ''what is the weather in sf'')]\<rparr>"

definition scenario_request :: agent_state where
  "scenario_request =
     \<lparr>messages = [HumanMessage (py ''what is the weather in sf''), AIMessage [] [scenario_call]]\<rparr>"

definition scenario_result :: agent_state where
  "scenario_result =
     \<lparr>messages = [HumanMessage (py ''what is the weather in sf''), AIMessage [] [scenario_call],
        ToolMessage scenario_tool_text (py ''get_weather'') (py ''call_azW0cQ4XjWWj0IAkWAxq9nLB'')]\<rparr>"

definition scenario_final :: agent_state where
  "scenario_final =
     \<lparr>messages = [HumanMessage (py ''what is the weather in sf''), AIMessage [] [scenario_call],
        ToolMessage scenario_tool_text (py ''get_weather'') (py ''call_azW0cQ4XjWWj0IAkWAxq9nLB''),
        scenario_closing]\<rparr>"

text \<open>A Tool Call for a capability that the registry does not hold.\<close>

definition unknown_call :: tool_call where
  "unknown_call = \<lparr>name = py ''get_time'', args = [], id' = py ''call_2''\<rparr>"

section \<open>Basic facts\<close>

lemma names_distinct:
  "py ''agent'' \<noteq> py ''tools''" "py ''tools'' \<noteq> py ''agent''"
  "py ''agent'' \<noteq> START" "START \<noteq> py ''agent''"
  "py ''tools'' \<noteq> START" "START \<noteq> py ''tools''"
  "py ''agent'' \<noteq> END" "END \<noteq> py ''agent''"
  "py ''tools'' \<noteq> END" "END \<noteq> py ''tools''"
  "START \<noteq> END" "END \<noteq> START"
  "py ''continue'' \<noteq> py ''end''" "py ''end'' \<noteq> py ''continue''"
  by (simp_all add: py_def START_def END_def)

lemma final_message_last:
  "final_message S = Some m \<Longrightarrow> py_last (messages S) = Inr m"
  by (auto simp: py_last_def final_message_def split: if_splits)

lemma final_message_None:
  "final_message S = None \<Longrightarrow> py_last (messages S) = Inl IndexError"
  by (auto simp: py_last_def final_message_def split: if_splits)

lemma py_in_sublist: "py_in sub s \<longleftrightarrow> sublist sub s"
  by (induction s) (simp_all add: sublist_Cons_right)

lemma json_dumps_str: "json_dumps (PyStr s) = Inr (encode_basestring_ascii s)"
  by (simp add: json_dumps_def)

lemma scenario_states:
  "final_message scenario_input = Some (HumanMessage (py ''what is the weather in sf''))"
  "final_message scenario_request = Some (AIMessage [] [scenario_call])"
  by (simp_all add: final_message_def scenario_input_def scenario_request_def)

section \<open>The continuation predicate\<close>

lemma should_continue_cases:
  "should_continue S =
     (case final_message S of
        None \<Rightarrow> Inl IndexError
      | Some m \<Rightarrow>
          (case tool_calls m of
             Inl e \<Rightarrow> Inl e
           | Inr calls \<Rightarrow> if calls = [] then Inr (py ''end'') else Inr (py ''continue'')))"
  by (simp add: should_continue_def py_last_def final_message_def)

lemma should_continue_label:
  "should_continue S = Inr label \<Longrightarrow> label = py ''continue'' \<or> label = py ''end''"
  by (auto simp: should_continue_def split: sum.splits if_splits)

lemma should_continue_Inr:
  assumes "should_continue S = Inr label"
  shows "\<exists>c tcs. final_message S = Some (AIMessage c tcs)"
proof (cases "final_message S")
  case None
  with assms show ?thesis by (simp add: should_continue_cases)
next
  case (Some m)
  with assms show ?thesis by (cases m) (simp_all add: should_continue_cases)
qed

text \<open>
  C1, as the code has it. A state without messages has no final message, and
  \<open>messages[-1]\<close> raises IndexError; a final message that is not model-authored
  has no \<open>tool_calls\<close> attribute, and reading it raises AttributeError. Neither case
  returns \<open>"end"\<close>.
\<close>

theorem should_continue_raises:
  "final_message \<lparr>messages = []\<rparr> = None
   \<and> should_continue \<lparr>messages = []\<rparr> = Inl IndexError
   \<and> should_continue \<lparr>messages = []\<rparr> \<noteq> Inr (py ''end'')
   \<and> final_message \<lparr>messages = [HumanMessage (py ''what is the weather in sf'')]\<rparr>
       = Some (HumanMessage (py ''what is the weather in sf''))
   \<and> should_continue \<lparr>messages = [HumanMessage (py ''what is the weather in sf'')]\<rparr>
       = Inl AttributeError
   \<and> should_continue \<lparr>messages = [HumanMessage (py ''what is the weather in sf'')]\<rparr>
       \<noteq> Inr (py ''end'')"
  by (simp add: should_continue_def py_last_def final_message_def)

text \<open>
  C1, amended: for every Conversation State whose final message is model-authored,
  \<open>should_continue\<close> returns \<open>"continue"\<close> if that message carries one or more Tool
  Calls and \<open>"end"\<close> if it carries none; it returns a label for no other state (it
  raises IndexError on the empty state and AttributeError on a final message that
  is not model-authored). So \<open>"continue"\<close> is returned if and only if the final
  message is model-authored and carries Tool Calls.
\<close>

theorem should_continue_final_message:
  "(should_continue S = Inr (py ''continue'')
      \<longleftrightarrow> (\<exists>m. final_message S = Some m \<and> model_authored m \<and> carried_calls m \<noteq> []))
   \<and> (should_continue S = Inr (py ''end'')
      \<longleftrightarrow> (\<exists>m. final_message S = Some m \<and> model_authored m \<and> carried_calls m = []))
   \<and> (final_message S = None \<longrightarrow> should_continue S = Inl IndexError)
   \<and> (\<forall>m. final_message S = Some m \<and> \<not> model_authored m
        \<longrightarrow> should_continue S = Inl AttributeError)"
proof (cases "final_message S")
  case None
  then show ?thesis by (simp add: should_continue_cases)
next
  case (Some m)
  then show ?thesis
    using names_distinct by (cases m) (auto simp: should_continue_cases)
qed

theorem should_continue_final_message_witness:
  "final_message scenario_request = Some (AIMessage [] [scenario_call])
   \<and> should_continue scenario_request = Inr (py ''continue'')
   \<and> final_message scenario_final = Some scenario_closing
   \<and> should_continue scenario_final = Inr (py ''end'')"
proof -
  have f: "final_message scenario_final = Some scenario_closing"
    by (simp add: final_message_def scenario_final_def)
  from should_continue_final_message [of scenario_request]
    should_continue_final_message [of scenario_final] f
  show ?thesis by (simp add: scenario_states scenario_closing_def)
qed

text \<open>
  C7: \<open>should_continue\<close> is deterministic given the final message: on two states
  with the same final message (or both without messages) it gives the same outcome,
  be it a routing label or an exception. Its body assigns to nothing and calls
  nothing but the two reads, which is why it is a function of the state with no
  state among its results.
\<close>

theorem should_continue_deterministic:
  "final_message S = final_message S' \<Longrightarrow> should_continue S = should_continue S'"
  by (simp add: should_continue_cases)

theorem should_continue_deterministic_witness:
  "final_message scenario_request = final_message \<lparr>messages = [AIMessage [] [scenario_call]]\<rparr>
   \<and> should_continue scenario_request
       = should_continue \<lparr>messages = [AIMessage [] [scenario_call]]\<rparr>"
proof -
  have f: "final_message scenario_request
             = final_message \<lparr>messages = [AIMessage [] [scenario_call]]\<rparr>"
    by (simp add: final_message_def scenario_request_def)
  from should_continue_deterministic [OF f] f show ?thesis by simp
qed

section \<open>The weather capability\<close>

lemma get_weather_city:
  "get_weather location =
     (if contains_registered_city location
      then py ''It's sunny in San Francisco, but you better look out if you're a Gemini ''
             @ [128520] @ py ''.''
      else py ''I am not sure what the weather is in '' @ location)"
  by (simp add: get_weather_def contains_registered_city_def py_any_def py_in_sublist)

text \<open>The capability of the persistence notebook raises on a city it does not know.\<close>

lemma get_weather_persistence_unknown:
  "city \<noteq> py ''nyc'' \<Longrightarrow> city \<noteq> py ''sf''
     \<Longrightarrow> get_weather_persistence city = Inl (AssertionError (py ''Unknown city''))"
  by (simp add: get_weather_persistence_def)

lemma tools_by_name_get_weather: "tools_by_name (py ''get_weather'') = Some get_weather_tool"
  by (simp add: tools_by_name_def tools_def get_weather_tool_def)

lemma tools_by_name_other: "n \<noteq> py ''get_weather'' \<Longrightarrow> tools_by_name n = None"
  by (simp add: tools_by_name_def tools_def get_weather_tool_def)

lemma invoke_get_weather:
  "invoke get_weather_tool [(py ''location'', PyStr location)] = Inr (PyStr (get_weather location))"
  by (simp add: get_weather_tool_def)

text \<open>The recorded call gives the recorded text.\<close>

lemma scenario_weather:
  "get_weather (py ''San Francisco'')
     = py ''It's sunny in San Francisco, but you better look out if you're a Gemini ''
         @ [128520] @ py ''.''"
  by (simp add: get_weather_def py_any_def lower_def lower_char_def py_def)

lemma scenario_text:
  "encode_basestring_ascii (get_weather (py ''San Francisco'')) = scenario_tool_text"
  unfolding scenario_weather
  by (simp add: encode_basestring_ascii_def escape_char_def hex4_def hex_digit_def py_def
        scenario_tool_text_def)

section \<open>The tool node\<close>

lemma tool_node_final:
  "final_message S = Some (AIMessage c tcs) \<Longrightarrow>
     tool_node registry S =
       (case tool_node_loop registry tcs [] of
          Inl e \<Rightarrow> Inl e
        | Inr outputs \<Rightarrow> Inr \<lparr>messages = outputs\<rparr>)"
  by (auto simp: tool_node_def py_last_def final_message_def split: if_splits)

text \<open>The loop returns exactly when every turn does, with one message per call.\<close>

lemma tool_node_loop_Inr:
  "tool_node_loop registry tcs outputs = Inr res
     \<longleftrightarrow> (\<exists>new. res = outputs @ new \<and> list_all2 (produced registry) tcs new)"
proof (induction tcs arbitrary: outputs)
  case Nil
  then show ?case by auto
next
  case (Cons tc rest)
  show ?case
  proof (cases "registry (name tc)")
    case None
    then show ?thesis by (auto simp: produced_def list_all2_Cons1)
  next
    case (Some t)
    note reg = this
    show ?thesis
    proof (cases "invoke t (args tc)")
      case (Inl e)
      with reg show ?thesis by (auto simp: produced_def list_all2_Cons1)
    next
      case (Inr v)
      note res = this
      show ?thesis
      proof (cases "json_dumps v")
        case (Inl e)
        with reg res show ?thesis by (auto simp: produced_def list_all2_Cons1)
      next
        case (Inr s)
        with reg res show ?thesis
          by (auto simp: Cons.IH produced_def list_all2_Cons1)
      qed
    qed
  qed
qed

lemma tool_node_Inr:
  "tool_node registry S = Inr delta
     \<longleftrightarrow> (\<exists>c tcs. final_message S = Some (AIMessage c tcs)
           \<and> list_all2 (produced registry) tcs (messages delta))"
proof (cases "final_message S")
  case None
  then show ?thesis
    by (simp add: tool_node_def final_message_None)
next
  case (Some m)
  show ?thesis
  proof (cases m)
    case (AIMessage c tcs)
    have "tool_node registry S = Inr delta
            \<longleftrightarrow> tool_node_loop registry tcs [] = Inr (messages delta)"
      using Some AIMessage by (cases delta) (auto simp: tool_node_final split: sum.splits)
    with Some AIMessage show ?thesis by (simp add: tool_node_loop_Inr)
  qed (use Some in \<open>simp_all add: tool_node_def final_message_last\<close>)
qed

lemma tool_node_loop_succeeds:
  "\<forall>tc \<in> set tcs. \<exists>t v. registry (name tc) = Some t \<and> invoke t (args tc) = Inr v
       \<and> serializable v
     \<Longrightarrow> \<exists>new. tool_node_loop registry tcs outputs = Inr (outputs @ new)
           \<and> list_all2 (produced registry) tcs new"
proof (induction tcs)
  case Nil
  then show ?case by (simp add: tool_node_loop_Inr)
next
  case (Cons tc rest)
  then obtain new where new: "list_all2 (produced registry) rest new"
    by (auto simp: tool_node_loop_Inr)
  from Cons.prems obtain t v where
    "registry (name tc) = Some t" "invoke t (args tc) = Inr v" "serializable v"
    by auto
  then have "produced registry tc (ToolMessage (encode v) (name tc) (id' tc))"
    by (auto simp: produced_def json_dumps_def)
  with new have "list_all2 (produced registry) (tc # rest)
      (ToolMessage (encode v) (name tc) (id' tc) # new)"
    by simp
  then show ?case
    unfolding tool_node_loop_Inr by blast
qed

lemma produced_nth:
  "list_all2 (produced registry) tcs new \<Longrightarrow> i < length tcs
     \<Longrightarrow> \<exists>t v s. registry (name (tcs ! i)) = Some t \<and> invoke t (args (tcs ! i)) = Inr v
           \<and> json_dumps v = Inr s \<and> new ! i = ToolMessage s (name (tcs ! i)) (id' (tcs ! i))"
  by (auto simp: list_all2_conv_all_nth produced_def)

lemma tool_node_loop_unknown:
  "tc \<in> set tcs \<Longrightarrow> registry (name tc) = None
     \<Longrightarrow> \<exists>e. tool_node_loop registry tcs outputs = Inl e"
proof (induction tcs arbitrary: outputs)
  case Nil
  then show ?case by simp
next
  case (Cons a rest)
  then show ?case by (auto split: option.splits sum.splits)
qed

lemma tool_node_loop_first_unknown:
  "\<forall>p \<in> set pre. \<exists>t v. registry (name p) = Some t \<and> invoke t (args p) = Inr v
       \<and> serializable v
     \<Longrightarrow> registry (name tc) = None
     \<Longrightarrow> tool_node_loop registry (pre @ tc # rest) outputs = Inl (KeyError (name tc))"
proof (induction pre arbitrary: outputs)
  case Nil
  then show ?case by simp
next
  case (Cons p pre)
  from Cons.prems(1) obtain t v where
    "registry (name p) = Some t" "invoke t (args p) = Inr v" "serializable v"
    by auto
  moreover have "tool_node_loop registry (pre @ tc # rest)
      (outputs @ [ToolMessage (encode v) (name p) (id' p)]) = Inl (KeyError (name tc))"
    using Cons by simp
  ultimately show ?case by (simp add: json_dumps_def)
qed

lemma scenario_call_ok:
  "\<forall>tc \<in> set [scenario_call]. \<exists>t v. tools_by_name (name tc) = Some t
      \<and> invoke t (args tc) = Inr v \<and> serializable v"
  by (simp add: scenario_call_def tools_by_name_get_weather invoke_get_weather)

lemma scenario_tool_node:
  "tool_node tools_by_name scenario_request =
     Inr \<lparr>messages = [ToolMessage scenario_tool_text (py ''get_weather'')
                        (py ''call_azW0cQ4XjWWj0IAkWAxq9nLB'')]\<rparr>"
  by (simp add: tool_node_final [OF scenario_states(2)] scenario_call_def
        tools_by_name_get_weather invoke_get_weather json_dumps_str scenario_text)

section \<open>The graph of the notebook\<close>

lemma workflow_nodes:
  "nodes (workflow model registry)
     = [(py ''agent'', call_model model), (py ''tools'', \<lambda>state config. tool_node registry state)]"
  by (simp add: workflow_def Let_def StateGraph_def add_node_def add_edge_def set_entry_point_def
        add_conditional_edges_def)

lemma workflow_edges:
  "edges (workflow model registry) = [(START, py ''agent''), (py ''tools'', py ''agent'')]"
  by (simp add: workflow_def Let_def StateGraph_def add_node_def add_edge_def set_entry_point_def
        add_conditional_edges_def)

lemma workflow_branches:
  "branches (workflow model registry)
     = [(py ''agent'', should_continue, [(py ''continue'', py ''tools''), (py ''end'', END)])]"
  by (simp add: workflow_def Let_def StateGraph_def add_node_def add_edge_def set_entry_point_def
        add_conditional_edges_def)

lemma next_node_START: "next_node (workflow model registry) START S = Inr (py ''agent'')"
  by (simp add: next_node_def workflow_edges workflow_branches names_distinct)

lemma next_node_tools:
  "next_node (workflow model registry) (py ''tools'') S = Inr (py ''agent'')"
  by (simp add: next_node_def workflow_edges workflow_branches names_distinct)

lemma next_node_agent:
  "next_node (workflow model registry) (py ''agent'') S =
     (case should_continue S of
        Inl e \<Rightarrow> Inl e
      | Inr label \<Rightarrow> if label = py ''continue'' then Inr (py ''tools'') else Inr END)"
  using should_continue_label [of S]
  by (auto simp: next_node_def workflow_edges workflow_branches names_distinct split: sum.splits)

lemma next_node_other:
  "position \<noteq> START \<Longrightarrow> position \<noteq> py ''agent'' \<Longrightarrow> position \<noteq> py ''tools''
     \<Longrightarrow> next_node (workflow model registry) position S = Inl GraphError"
  by (simp add: next_node_def workflow_edges workflow_branches)

lemma run_step_START:
  "run_step (workflow model registry) config (START, S) = Inr (py ''agent'', S)"
  by (simp add: run_step_def next_node_START)

lemma run_step_agent:
  "run_step (workflow model registry) config (py ''agent'', S) =
     (case call_model model S config of
        Inl e \<Rightarrow> Inl e
      | Inr delta \<Rightarrow>
          (case next_node (workflow model registry) (py ''agent'') (add_messages S delta) of
             Inl e \<Rightarrow> Inl e
           | Inr target \<Rightarrow> Inr (target, add_messages S delta)))"
  by (simp add: run_step_def workflow_nodes names_distinct)

lemma run_step_tools:
  "run_step (workflow model registry) config (py ''tools'', S) =
     (case tool_node registry S of
        Inl e \<Rightarrow> Inl e
      | Inr delta \<Rightarrow> Inr (py ''agent'', add_messages S delta))"
  by (simp add: run_step_def workflow_nodes names_distinct next_node_tools split: sum.splits)

lemma run_step_other:
  "position \<noteq> START \<Longrightarrow> position \<noteq> py ''agent'' \<Longrightarrow> position \<noteq> py ''tools''
     \<Longrightarrow> run_step (workflow model registry) config (position, S) = Inl GraphError"
  by (simp add: run_step_def workflow_nodes)

section \<open>What the tool node returns\<close>

text \<open>
  C2, as the code has it: a final message that is model-authored and carries one
  Tool Call is not enough for a delta. The call below names a capability that the
  registry does not hold, and the tool node raises KeyError.
\<close>

theorem tool_node_unknown_raises:
  "final_message \<lparr>messages = [AIMessage [] [unknown_call]]\<rparr> = Some (AIMessage [] [unknown_call])
   \<and> model_authored (AIMessage [] [unknown_call])
   \<and> carried_calls (AIMessage [] [unknown_call]) = [unknown_call]
   \<and> tool_node tools_by_name \<lparr>messages = [AIMessage [] [unknown_call]]\<rparr>
       = Inl (KeyError (py ''get_time''))"
  by (simp add: final_message_def tool_node_def py_last_def tools_by_name_def tools_def
        get_weather_tool_def unknown_call_def py_def)

text \<open>
  C2, amended: for every state whose final message is model-authored and carries
  the Tool Calls \<open>c1..cn\<close>, each naming a capability of the registry whose invocation
  on the call's arguments returns a value that \<open>json.dumps\<close> can encode, the tool
  node returns a delta of exactly \<open>n\<close> tool-result messages, in the order of the
  calls, the \<open>i\<close>-th carrying the tool name and the call identifier of \<open>ci\<close>; the
  state that the reducer makes of it is the old message sequence followed by the
  \<open>n\<close> new messages, so no message already present is altered.
\<close>

theorem tool_node_results:
  assumes final: "final_message S = Some (AIMessage c tcs)"
    and ok: "\<forall>tc \<in> set tcs. \<exists>t v. registry (name tc) = Some t \<and> invoke t (args tc) = Inr v
               \<and> serializable v"
  shows "\<exists>outputs. tool_node registry S = Inr \<lparr>messages = outputs\<rparr>
           \<and> length outputs = length tcs
           \<and> (\<forall>i < length tcs. \<exists>s. outputs ! i = ToolMessage s (name (tcs ! i)) (id' (tcs ! i)))
           \<and> messages (add_messages S \<lparr>messages = outputs\<rparr>) = messages S @ outputs"
proof -
  from tool_node_loop_succeeds [OF ok, of "[]"] obtain new where
    run: "tool_node_loop registry tcs [] = Inr new"
    and all: "list_all2 (produced registry) tcs new"
    by auto
  from final run have "tool_node registry S = Inr \<lparr>messages = new\<rparr>"
    by (simp add: tool_node_final)
  moreover from all have "length new = length tcs"
    by (simp add: list_all2_lengthD)
  moreover have "\<forall>i < length tcs. \<exists>s. new ! i = ToolMessage s (name (tcs ! i)) (id' (tcs ! i))"
    using produced_nth [OF all] by blast
  moreover have "messages (add_messages S \<lparr>messages = new\<rparr>) = messages S @ new"
    by (simp add: add_messages_def)
  ultimately show ?thesis by blast
qed

theorem tool_node_results_witness:
  "final_message scenario_request = Some (AIMessage [] [scenario_call])
   \<and> (\<exists>outputs s. tool_node tools_by_name scenario_request = Inr \<lparr>messages = outputs\<rparr>
         \<and> length outputs = 1
         \<and> outputs ! 0 = ToolMessage s (py ''get_weather'') (py ''call_azW0cQ4XjWWj0IAkWAxq9nLB'')
         \<and> messages (add_messages scenario_request \<lparr>messages = outputs\<rparr>)
             = messages scenario_request @ outputs)"
proof -
  from tool_node_results [OF scenario_states(2) scenario_call_ok]
  obtain outputs where
    "tool_node tools_by_name scenario_request = Inr \<lparr>messages = outputs\<rparr>"
    "length outputs = 1"
    "\<exists>s. outputs ! 0 = ToolMessage s (name scenario_call) (id' scenario_call)"
    "messages (add_messages scenario_request \<lparr>messages = outputs\<rparr>)
       = messages scenario_request @ outputs"
    by auto
  then show ?thesis
    by (auto simp: scenario_states scenario_call_def)
qed

text \<open>
  C3: if the final message carries a Tool Call whose name has no entry in the
  registry, the tool node raises and returns no delta, whatever the calls before it
  produced: the step of the graph from the tool node fails with the same exception
  and gives no new state. When the calls before the unknown one all return, the
  exception is the KeyError of the unknown name.
\<close>

theorem tool_node_unknown_tool:
  assumes final: "final_message S = Some (AIMessage c (pre @ tc # rest))"
    and unknown: "registry (name tc) = None"
  shows "(\<exists>e. tool_node registry S = Inl e
            \<and> run_step (workflow model registry) config (py ''tools'', S) = Inl e)
    \<and> ((\<forall>p \<in> set pre. \<exists>t v. registry (name p) = Some t \<and> invoke t (args p) = Inr v
            \<and> serializable v)
        \<longrightarrow> tool_node registry S = Inl (KeyError (name tc)))"
proof -
  have "tc \<in> set (pre @ tc # rest)" by simp
  with unknown obtain e where "tool_node_loop registry (pre @ tc # rest) [] = Inl e"
    using tool_node_loop_unknown [of tc "pre @ tc # rest" registry "[]"] by blast
  with final have e: "tool_node registry S = Inl e"
    by (simp add: tool_node_final)
  then have "run_step (workflow model registry) config (py ''tools'', S) = Inl e"
    by (simp add: run_step_tools)
  moreover have "tool_node registry S = Inl (KeyError (name tc))"
    if "\<forall>p \<in> set pre. \<exists>t v. registry (name p) = Some t \<and> invoke t (args p) = Inr v
          \<and> serializable v"
    using tool_node_loop_first_unknown [OF that unknown, of rest "[]"] final
    by (simp add: tool_node_final)
  ultimately show ?thesis using e by blast
qed

theorem tool_node_unknown_tool_witness:
  "final_message \<lparr>messages = [AIMessage [] [scenario_call, unknown_call]]\<rparr>
     = Some (AIMessage [] ([scenario_call] @ unknown_call # []))
   \<and> tools_by_name (name unknown_call) = None
   \<and> tool_node tools_by_name \<lparr>messages = [AIMessage [] [scenario_call, unknown_call]]\<rparr>
       = Inl (KeyError (py ''get_time''))
   \<and> run_step (workflow scenario_model tools_by_name) ()
        (py ''tools'', \<lparr>messages = [AIMessage [] [scenario_call, unknown_call]]\<rparr>)
       = Inl (KeyError (py ''get_time''))"
proof -
  have f: "final_message \<lparr>messages = [AIMessage [] [scenario_call, unknown_call]]\<rparr>
     = Some (AIMessage [] ([scenario_call] @ unknown_call # []))"
    by (simp add: final_message_def)
  have u: "tools_by_name (name unknown_call) = None"
    by (simp add: tools_by_name_other unknown_call_def py_def)
  have n: "name unknown_call = py ''get_time''"
    by (simp add: unknown_call_def)
  from tool_node_unknown_tool [where pre = "[scenario_call]" and tc = unknown_call
      and rest = "[]" and registry = tools_by_name and model = scenario_model
      and config = "()", OF f u] scenario_call_ok f u n
  show ?thesis by auto
qed

text \<open>
  C9: on a state whose final message is model-authored and carries zero Tool Calls,
  the tool node does not fail: its loop has no turn, and it returns the delta with
  the empty list of messages.
\<close>

theorem tool_node_no_calls:
  "final_message S = Some (AIMessage c []) \<Longrightarrow> tool_node registry S = Inr \<lparr>messages = []\<rparr>"
  by (simp add: tool_node_final)

theorem tool_node_no_calls_witness:
  "final_message scenario_final = Some (AIMessage (py
     ''The weather in San Francisco is sunny! However, it seems there's a playful warning for Geminis. Enjoy the sunshine!'') [])
   \<and> tool_node tools_by_name scenario_final = Inr \<lparr>messages = []\<rparr>"
proof -
  have f: "final_message scenario_final = Some (AIMessage (py
     ''The weather in San Francisco is sunny! However, it seems there's a playful warning for Geminis. Enjoy the sunshine!'') [])"
    by (simp add: final_message_def scenario_final_def scenario_closing_def)
  from tool_node_no_calls [OF f] f show ?thesis by simp
qed

text \<open>
  An encoded string holds printable ASCII only, and is two quotes longer than the
  string at least.
\<close>

lemma hex_digit_ascii: "d < 16 \<Longrightarrow> 32 \<le> hex_digit d \<and> hex_digit d \<le> 126"
  by (simp add: hex_digit_def)

lemma hex4_ascii: "ch \<in> set (hex4 n) \<Longrightarrow> 32 \<le> ch \<and> ch \<le> 126"
  using hex_digit_ascii [of "n div 4096 mod 16"] hex_digit_ascii [of "n div 256 mod 16"]
    hex_digit_ascii [of "n div 16 mod 16"] hex_digit_ascii [of "n mod 16"]
  by (auto simp: hex4_def)

lemma escape_char_ascii:
  assumes "ch \<in> set (escape_char c)"
  shows "32 \<le> ch \<and> ch \<le> 126"
proof -
  consider "ch = 92" | "ch = 34" | "ch = 98" | "ch = 102" | "ch = 110" | "ch = 114"
    | "ch = 116" | "ch = 117" | "ch = c \<and> 32 \<le> c \<and> c \<le> 126"
    | n where "ch \<in> set (hex4 n)"
    using assms by (auto simp: escape_char_def split: if_splits)
  then show ?thesis
    by cases (simp_all add: hex4_ascii)
qed

lemma escape_char_length: "1 \<le> length (escape_char c)"
  by (simp add: escape_char_def hex4_def)

lemma concat_escape_length: "length s \<le> length (concat (map escape_char s))"
proof (induction s)
  case Nil
  then show ?case by simp
next
  case (Cons c s)
  then show ?case using escape_char_length [of c] by simp
qed

lemma encode_basestring_ascii_length:
  "length (encode_basestring_ascii s) \<ge> length s + 2"
  using concat_escape_length [of s] by (simp add: encode_basestring_ascii_def)

lemma encode_basestring_ascii_neq: "encode_basestring_ascii s \<noteq> s"
  using encode_basestring_ascii_length [of s] by auto

text \<open>
  C10: the content of every tool-result message that the tool node returns is
  \<open>json.dumps\<close> of the value that the capability returned for the call of the same
  position. For a string value that is the string between two double quotes, with
  the quote, the backslash and every code point outside printable ASCII escaped,
  and never the raw string itself.
\<close>

theorem tool_message_content_json:
  assumes "tool_node registry S = Inr delta"
  shows "(\<exists>c tcs. final_message S = Some (AIMessage c tcs)
            \<and> length (messages delta) = length tcs
            \<and> (\<forall>i < length tcs. \<exists>t v s. registry (name (tcs ! i)) = Some t
                  \<and> invoke t (args (tcs ! i)) = Inr v \<and> json_dumps v = Inr s
                  \<and> messages delta ! i = ToolMessage s (name (tcs ! i)) (id' (tcs ! i))))
    \<and> (\<forall>x. json_dumps (PyStr x) = Inr ([34] @ concat (map escape_char x) @ [34])
            \<and> json_dumps (PyStr x) \<noteq> Inr x
            \<and> (\<forall>ch \<in> set (concat (map escape_char x)). 32 \<le> ch \<and> ch \<le> 126))"
proof -
  from assms obtain c tcs where
    final: "final_message S = Some (AIMessage c tcs)"
    and all: "list_all2 (produced registry) tcs (messages delta)"
    by (auto simp: tool_node_Inr)
  have "length (messages delta) = length tcs"
    using all by (simp add: list_all2_lengthD)
  moreover have "\<forall>i < length tcs. \<exists>t v s. registry (name (tcs ! i)) = Some t
      \<and> invoke t (args (tcs ! i)) = Inr v \<and> json_dumps v = Inr s
      \<and> messages delta ! i = ToolMessage s (name (tcs ! i)) (id' (tcs ! i))"
    using produced_nth [OF all] by blast
  moreover have "json_dumps (PyStr x) = Inr ([34] @ concat (map escape_char x) @ [34])
      \<and> json_dumps (PyStr x) \<noteq> Inr x
      \<and> (\<forall>ch \<in> set (concat (map escape_char x)). 32 \<le> ch \<and> ch \<le> 126)" for x
    using encode_basestring_ascii_neq [of x] escape_char_ascii
    by (auto simp: json_dumps_str encode_basestring_ascii_def)
  ultimately show ?thesis using final by blast
qed

theorem tool_message_content_json_witness:
  "tool_node tools_by_name scenario_request =
     Inr \<lparr>messages = [ToolMessage scenario_tool_text (py ''get_weather'')
                        (py ''call_azW0cQ4XjWWj0IAkWAxq9nLB'')]\<rparr>
   \<and> (\<exists>t v. tools_by_name (py ''get_weather'') = Some t
         \<and> invoke t [(py ''location'', PyStr (py ''San Francisco''))] = Inr v
         \<and> json_dumps v = Inr scenario_tool_text)"
proof -
  from tool_message_content_json [OF scenario_tool_node]
  have "\<exists>t v s. tools_by_name (name scenario_call) = Some t
      \<and> invoke t (args scenario_call) = Inr v \<and> json_dumps v = Inr s
      \<and> [ToolMessage scenario_tool_text (py ''get_weather'')
            (py ''call_azW0cQ4XjWWj0IAkWAxq9nLB'')] ! 0
          = ToolMessage s (name scenario_call) (id' scenario_call)"
    by (auto simp: scenario_states)
  then show ?thesis
    using scenario_tool_node by (auto simp: scenario_call_def)
qed

text \<open>
  C5: for every location that contains no registered city (neither \<open>sf\<close> nor
  \<open>san francisco\<close>, in whatever case), \<open>get_weather\<close> returns the text
  "I am not sure what the weather is in" followed by the location; it has no
  statement that raises. The capability invoked with that location returns the
  text, and the tool node, on a final message carrying this one call, completes
  with one tool-result message holding the text in JSON.
\<close>

theorem get_weather_unregistered_city:
  assumes "\<not> contains_registered_city location"
  shows "get_weather location = py ''I am not sure what the weather is in '' @ location
    \<and> invoke get_weather_tool [(py ''location'', PyStr location)]
        = Inr (PyStr (py ''I am not sure what the weather is in '' @ location))
    \<and> (final_message S = Some (AIMessage c
          [\<lparr>name = py ''get_weather'', args = [(py ''location'', PyStr location)], id' = i\<rparr>])
        \<longrightarrow> tool_node tools_by_name S = Inr \<lparr>messages =
          [ToolMessage
             (encode_basestring_ascii (py ''I am not sure what the weather is in '' @ location))
             (py ''get_weather'') i]\<rparr>)"
  using assms
  by (simp add: get_weather_city invoke_get_weather tool_node_final tools_by_name_get_weather
        json_dumps_str)

theorem get_weather_unregistered_city_witness:
  "\<not> contains_registered_city (py ''New York'')
   \<and> get_weather (py ''New York'') = py ''I am not sure what the weather is in New York''
   \<and> tool_node tools_by_name
        \<lparr>messages = [AIMessage []
           [\<lparr>name = py ''get_weather'', args = [(py ''location'', PyStr (py ''New York''))],
             id' = py ''call_1''\<rparr>]]\<rparr>
       = Inr \<lparr>messages =
           [ToolMessage ([34] @ py ''I am not sure what the weather is in New York'' @ [34])
              (py ''get_weather'') (py ''call_1'')]\<rparr>"
proof -
  have h: "\<not> contains_registered_city (py ''New York'')"
    by (simp add: contains_registered_city_def py_in_sublist [symmetric] lower_def
          lower_char_def py_def)
  have f: "final_message \<lparr>messages = [AIMessage []
           [\<lparr>name = py ''get_weather'', args = [(py ''location'', PyStr (py ''New York''))],
             id' = py ''call_1''\<rparr>]]\<rparr>
          = Some (AIMessage []
           [\<lparr>name = py ''get_weather'', args = [(py ''location'', PyStr (py ''New York''))],
             id' = py ''call_1''\<rparr>])"
    by (simp add: final_message_def)
  have e: "encode_basestring_ascii (py ''I am not sure what the weather is in New York'')
            = [34] @ py ''I am not sure what the weather is in New York'' @ [34]"
    by (simp add: encode_basestring_ascii_def escape_char_def py_def)
  have a: "py ''I am not sure what the weather is in '' @ py ''New York''
            = py ''I am not sure what the weather is in New York''"
    by (simp add: py_def)
  from get_weather_unregistered_city [OF h, of _ "[]" "py ''call_1''"] f h e a
  show ?thesis by simp
qed

section \<open>The agent node\<close>

text \<open>
  C4: for every Conversation State, \<open>call_model\<close> consults the model client on one
  sequence only, the fixed system message followed by the messages of the state
  (a client that agrees with the given one on that sequence gives the same
  outcome). When the client answers that sequence with a response, the node returns
  the delta holding exactly this one message, the message that the model authored;
  the state that the reducer makes of it is the old messages followed by the
  response, so the system message is not stored: with a model-authored response it
  is among the stored messages only if it was there before. When the client
  raises, the node raises the same exception.
\<close>

theorem call_model_delta:
  "(\<forall>model'. model' ([system_prompt] @ messages S) config
                 = model ([system_prompt] @ messages S) config
        \<longrightarrow> call_model model' S config = call_model model S config)
   \<and> (\<forall>response. model ([system_prompt] @ messages S) config = Inr response
        \<longrightarrow> call_model model S config = Inr \<lparr>messages = [response]\<rparr>
          \<and> add_messages S \<lparr>messages = [response]\<rparr> = \<lparr>messages = messages S @ [response]\<rparr>)
   \<and> (\<forall>response. model ([system_prompt] @ messages S) config = Inr response
          \<and> model_authored response
        \<longrightarrow> (system_prompt \<in> set (messages (add_messages S \<lparr>messages = [response]\<rparr>))
              \<longleftrightarrow> system_prompt \<in> set (messages S)))
   \<and> (\<forall>e. model ([system_prompt] @ messages S) config = Inl e
        \<longrightarrow> call_model model S config = Inl e)"
proof -
  have "response \<noteq> system_prompt" if "model_authored response" for response
    using that by (cases response) (simp_all add: system_prompt_def)
  then show ?thesis
    by (auto simp: call_model_def add_messages_def)
qed

theorem call_model_delta_witness:
  "scenario_model ([system_prompt] @ messages scenario_input) ()
     = Inr (AIMessage [] [scenario_call])
   \<and> call_model scenario_model scenario_input ()
     = Inr \<lparr>messages = [AIMessage [] [scenario_call]]\<rparr>
   \<and> add_messages scenario_input \<lparr>messages = [AIMessage [] [scenario_call]]\<rparr>
     = scenario_request
   \<and> system_prompt \<notin> set (messages scenario_request)"
proof -
  have n: "system_prompt \<notin> set (messages scenario_input)"
    by (simp add: scenario_input_def system_prompt_def)
  have r: "scenario_model ([system_prompt] @ messages scenario_input) ()
     = Inr (AIMessage [] [scenario_call])"
    by (simp add: scenario_model_def scenario_input_def)
  have s: "\<lparr>messages = messages scenario_input @ [AIMessage [] [scenario_call]]\<rparr>
     = scenario_request"
    by (simp add: scenario_input_def scenario_request_def)
  have m: "model_authored (AIMessage [] [scenario_call])"
    by simp
  note c = call_model_delta [where S = scenario_input and config = "()"
      and model = scenario_model]
  from c r have d: "call_model scenario_model scenario_input ()
          = Inr \<lparr>messages = [AIMessage [] [scenario_call]]\<rparr>"
    by blast
  from c r have "add_messages scenario_input \<lparr>messages = [AIMessage [] [scenario_call]]\<rparr>
          = \<lparr>messages = messages scenario_input @ [AIMessage [] [scenario_call]]\<rparr>"
    by blast
  with s have a: "add_messages scenario_input \<lparr>messages = [AIMessage [] [scenario_call]]\<rparr>
          = scenario_request"
    by simp
  from c r m have "system_prompt \<in> set (messages
            (add_messages scenario_input \<lparr>messages = [AIMessage [] [scenario_call]]\<rparr>))
          \<longleftrightarrow> system_prompt \<in> set (messages scenario_input)"
    by blast
  with n have "system_prompt \<notin> set (messages scenario_request)"
    unfolding a by simp
  with r d a show ?thesis by simp
qed

section \<open>The loop\<close>

text \<open>
  C6: the graph of the notebook has exactly these transitions: from \<open>START\<close> to the
  agent node, always; from the agent node to the tool node when \<open>should_continue\<close>
  returns \<open>"continue"\<close> and to \<open>END\<close> when it returns \<open>"end"\<close>; from the tool node to
  the agent node, always. In particular the tool node never leads to \<open>END\<close>. The
  agent node is \<open>call_model\<close> and the tool node is \<open>tool_node\<close>.
\<close>

theorem workflow_transitions:
  "(next_node (workflow model registry) position S = Inr target
      \<longleftrightarrow> position = START \<and> target = py ''agent''
        \<or> position = py ''agent'' \<and> should_continue S = Inr (py ''continue'')
            \<and> target = py ''tools''
        \<or> position = py ''agent'' \<and> should_continue S = Inr (py ''end'') \<and> target = END
        \<or> position = py ''tools'' \<and> target = py ''agent'')
   \<and> next_node (workflow model registry) (py ''tools'') S \<noteq> Inr END
   \<and> map_of (nodes (workflow model registry)) (py ''agent'') = Some (call_model model)
   \<and> map_of (nodes (workflow model registry)) (py ''tools'')
        = Some (\<lambda>state config. tool_node registry state)"
proof -
  have "next_node (workflow model registry) position S = Inr target
      \<longleftrightarrow> position = START \<and> target = py ''agent''
        \<or> position = py ''agent'' \<and> should_continue S = Inr (py ''continue'')
            \<and> target = py ''tools''
        \<or> position = py ''agent'' \<and> should_continue S = Inr (py ''end'') \<and> target = END
        \<or> position = py ''tools'' \<and> target = py ''agent''"
  proof (cases "position = START \<or> position = py ''agent'' \<or> position = py ''tools''")
    case False
    then show ?thesis by (simp add: next_node_other)
  next
    case True
    then show ?thesis
      using should_continue_label [of S]
      by (auto simp: next_node_START next_node_tools next_node_agent names_distinct
            split: sum.splits)
  qed
  then show ?thesis
    by (simp add: next_node_tools workflow_nodes names_distinct)
qed

text \<open>Appending to a sequence that ends in a model-authored message.\<close>

lemma answers_after_ai:
  "answers ids (xs @ AIMessage c tcs # ys)
     \<longleftrightarrow> answers ids xs \<and> answers (Some (map id' tcs)) ys"
  by (induction ids xs rule: answers.induct) simp_all

lemma answers_produced:
  "list_all2 (produced registry) tcs new \<Longrightarrow> set (map id' tcs) \<subseteq> set ids
     \<Longrightarrow> answers (Some ids) new"
  by (induction tcs new rule: list_all2_induct) (auto simp: produced_def)

lemma answers_append:
  assumes "answers ids xs" and "answers None new"
    and "new = [] \<or> (\<exists>c tcs ys. new = AIMessage c tcs # ys)"
  shows "answers ids (xs @ new)"
  using assms by (auto simp: answers_after_ai)

lemma run_invariant_step:
  assumes inv: "run_invariant initial (position, S)"
    and step: "run_step (workflow model registry) config (position, S) = Inr (position', S')"
  shows "run_invariant initial (position', S')"
proof -
  from inv obtain new where
    msgs: "messages S = messages initial @ new"
    and ans: "answers None new"
    and shape: "new = [] \<or> (\<exists>c tcs ys. new = AIMessage c tcs # ys)"
    and tools: "position = py ''tools'' \<longrightarrow> new \<noteq> []"
    by (auto simp: run_invariant_def)
  consider (start) "position = START" | (agent) "position = py ''agent''"
    | (tools) "position = py ''tools''"
    | (other) "position \<noteq> START" "position \<noteq> py ''agent''" "position \<noteq> py ''tools''"
    by blast
  then show ?thesis
  proof cases
    case start
    with step have "position' = py ''agent''" "S' = S"
      by (simp_all add: run_step_START)
    with msgs ans shape show ?thesis
      by (auto simp: run_invariant_def names_distinct)
  next
    case agent
    from step agent obtain delta where
      delta: "call_model model S config = Inr delta"
      and route: "next_node (workflow model registry) (py ''agent'') (add_messages S delta)
                   = Inr position'"
      and S': "S' = add_messages S delta"
      by (auto simp: run_step_agent split: sum.splits)
    from delta obtain response where response: "messages delta = [response]"
      by (auto simp: call_model_def split: sum.splits)
    from route obtain label where "should_continue (add_messages S delta) = Inr label"
      by (auto simp: next_node_agent split: sum.splits)
    from should_continue_Inr [OF this] response obtain c tcs where
      ai: "response = AIMessage c tcs"
      by (auto simp: final_message_def add_messages_def)
    have "messages S' = messages initial @ (new @ [AIMessage c tcs])"
      using S' msgs response ai by (simp add: add_messages_def)
    moreover have "answers None (new @ [AIMessage c tcs])"
      using ans by (simp add: answers_after_ai)
    moreover have "\<exists>c' tcs' ys. new @ [AIMessage c tcs] = AIMessage c' tcs' # ys"
      using shape by auto
    ultimately show ?thesis
      unfolding run_invariant_def by (intro exI [of _ "new @ [AIMessage c tcs]"]) simp
  next
    case tools
    from step tools obtain delta where
      delta: "tool_node registry S = Inr delta"
      and S': "S' = add_messages S delta" and p': "position' = py ''agent''"
      by (auto simp: run_step_tools split: sum.splits)
    from delta obtain c tcs where
      final: "final_message S = Some (AIMessage c tcs)"
      and all: "list_all2 (produced registry) tcs (messages delta)"
      by (auto simp: tool_node_Inr)
    from tools \<open>position = py ''tools'' \<longrightarrow> new \<noteq> []\<close> have ne: "new \<noteq> []" by simp
    with final msgs have "last new = AIMessage c tcs"
      by (auto simp: final_message_def split: if_splits)
    with ne have new: "new = butlast new @ [AIMessage c tcs]"
      by (metis append_butlast_last_id)
    have "answers None (butlast new)"
      using ans new answers_after_ai [of None "butlast new" c tcs "[]"] by simp
    moreover have "answers (Some (map id' tcs)) (messages delta)"
      using answers_produced [OF all] by simp
    ultimately have "answers None (butlast new @ AIMessage c tcs # messages delta)"
      by (simp add: answers_after_ai)
    with new have "answers None (new @ messages delta)"
      by (metis append.assoc append_Cons append_Nil)
    moreover have "messages S' = messages initial @ (new @ messages delta)"
      using S' msgs by (simp add: add_messages_def)
    moreover have "\<exists>c' tcs' ys. new @ messages delta = AIMessage c' tcs' # ys"
      using shape ne by auto
    ultimately show ?thesis
      unfolding run_invariant_def using p'
      by (intro exI [of _ "new @ messages delta"]) (simp add: names_distinct)
  next
    case other
    with step show ?thesis by (simp add: run_step_other)
  qed
qed

lemma reachable_invariant:
  "reachable (workflow model registry) config initial ps \<Longrightarrow> run_invariant initial ps"
proof (induction rule: reachable.induct)
  case reachable_start
  show ?case by (simp add: run_invariant_def names_distinct)
next
  case (reachable_step ps ps')
  then show ?case
    using run_invariant_step [of initial "fst ps" "snd ps" model registry config "fst ps'" "snd ps'"]
    by simp
qed

text \<open>The recorded run, step by step.\<close>

lemma scenario_steps:
  "run_step (workflow scenario_model tools_by_name) () (START, scenario_input)
     = Inr (py ''agent'', scenario_input)"
  "run_step (workflow scenario_model tools_by_name) () (py ''agent'', scenario_input)
     = Inr (py ''tools'', scenario_request)"
  "run_step (workflow scenario_model tools_by_name) () (py ''tools'', scenario_request)
     = Inr (py ''agent'', scenario_result)"
  "run_step (workflow scenario_model tools_by_name) () (py ''agent'', scenario_result)
     = Inr (END, scenario_final)"
proof -
  show "run_step (workflow scenario_model tools_by_name) () (START, scenario_input)
     = Inr (py ''agent'', scenario_input)"
    by (simp add: run_step_START)
  show "run_step (workflow scenario_model tools_by_name) () (py ''agent'', scenario_input)
     = Inr (py ''tools'', scenario_request)"
    by (simp add: run_step_agent next_node_agent call_model_def scenario_model_def
          scenario_input_def scenario_request_def add_messages_def should_continue_def
          py_last_def)
  show "run_step (workflow scenario_model tools_by_name) () (py ''tools'', scenario_request)
     = Inr (py ''agent'', scenario_result)"
    unfolding run_step_tools scenario_tool_node
    by (simp add: add_messages_def scenario_request_def scenario_result_def)
  show "run_step (workflow scenario_model tools_by_name) () (py ''agent'', scenario_result)
     = Inr (END, scenario_final)"
    by (simp add: run_step_agent next_node_agent call_model_def scenario_model_def
          scenario_result_def scenario_final_def add_messages_def should_continue_def
          py_last_def scenario_closing_def names_distinct)
qed

lemma scenario_reachable:
  "reachable (workflow scenario_model tools_by_name) () scenario_input (END, scenario_final)"
proof -
  note step = reachable_step [of "workflow scenario_model tools_by_name" "()" scenario_input]
  have "reachable (workflow scenario_model tools_by_name) () scenario_input
          (START, scenario_input)"
    by (rule reachable_start)
  from step [OF this scenario_steps(1)] have
    "reachable (workflow scenario_model tools_by_name) () scenario_input
       (py ''agent'', scenario_input)" .
  from step [OF this scenario_steps(2)] have
    "reachable (workflow scenario_model tools_by_name) () scenario_input
       (py ''tools'', scenario_request)" .
  from step [OF this scenario_steps(3)] have
    "reachable (workflow scenario_model tools_by_name) () scenario_input
       (py ''agent'', scenario_result)" .
  from step [OF this scenario_steps(4)] show ?thesis .
qed

text \<open>
  C8: every tool-result message that the tool node returns carries the call
  identifier of a Tool Call of the final message of the state it ran on, which is
  model-authored and comes immediately before the appended messages. So in every
  state that a run of the graph reaches, each tool-result message appended since
  the initial state answers a Tool Call of the latest model-authored message before
  it; and the whole message sequence has this property when the initial one has
  (as the initial state of one human message does).
\<close>

theorem tool_results_answer_calls:
  assumes "reachable (workflow model registry) config initial (position, S)"
  shows "(\<exists>new. messages S = messages initial @ new \<and> answers None new
            \<and> (answers None (messages initial) \<longrightarrow> answers None (messages S)))
    \<and> (\<forall>delta. tool_node registry S = Inr delta
          \<longrightarrow> (\<exists>c tcs. final_message S = Some (AIMessage c tcs)
                \<and> list_all2 (\<lambda>tc m. \<exists>s. m = ToolMessage s (name tc) (id' tc))
                     tcs (messages delta)))"
proof -
  from reachable_invariant [OF assms] obtain new where
    msgs: "messages S = messages initial @ new"
    and ans: "answers None new"
    and shape: "new = [] \<or> (\<exists>c tcs ys. new = AIMessage c tcs # ys)"
    by (auto simp: run_invariant_def)
  have "answers None (messages S)" if "answers None (messages initial)"
    using answers_append [OF that ans shape] msgs by simp
  with msgs ans have first: "\<exists>new. messages S = messages initial @ new \<and> answers None new
      \<and> (answers None (messages initial) \<longrightarrow> answers None (messages S))"
    by blast
  have "\<exists>c tcs. final_message S = Some (AIMessage c tcs)
      \<and> list_all2 (\<lambda>tc m. \<exists>s. m = ToolMessage s (name tc) (id' tc)) tcs (messages delta)"
    if "tool_node registry S = Inr delta" for delta
  proof -
    from that obtain c tcs where
      final: "final_message S = Some (AIMessage c tcs)"
      and all: "list_all2 (produced registry) tcs (messages delta)"
      by (auto simp: tool_node_Inr)
    from all have "list_all2 (\<lambda>tc m. \<exists>s. m = ToolMessage s (name tc) (id' tc))
        tcs (messages delta)"
      by (rule list_all2_mono) (auto simp: produced_def)
    with final show ?thesis by blast
  qed
  with first show ?thesis by blast
qed

theorem tool_results_answer_calls_witness:
  "reachable (workflow scenario_model tools_by_name) () scenario_input (END, scenario_final)
   \<and> answers None (messages scenario_input)
   \<and> answers None (messages scenario_final)
   \<and> length (messages scenario_final) = 4"
proof -
  have i: "answers None (messages scenario_input)"
    by (simp add: scenario_input_def)
  from tool_results_answer_calls [OF scenario_reachable] i scenario_reachable
  show ?thesis by (auto simp: scenario_final_def)
qed

end
